theory Spec2Isabelle
  imports Main "HOL-Library.Word"
begin

unbundle bit_operations_syntax

section \<open>Bytes, strings and exceptions\<close>

text \<open>
  Python \<open>bytes\<close> are lists of 8-bit words, Python \<open>str\<close> values are HOL strings.
  An exception that leaves a function is the \<open>Inl\<close> branch of its result.
\<close>

type_synonym byte = "8 word"
type_synonym bytes = "byte list"
type_synonym u32 = "32 word"

datatype exn = ValueError | BinasciiError | InvalidToken | EOFError | OverflowError

definition byte_of_char :: "char \<Rightarrow> byte" where
  "byte_of_char c = of_nat (of_char c)"

definition char_of_byte :: "byte \<Rightarrow> char" where
  "char_of_byte b = char_of (unat b)"

function chunks :: "nat \<Rightarrow> 'a list \<Rightarrow> 'a list list" where
  "chunks n xs = (if n = 0 \<or> xs = [] then [] else take n xs # chunks n (drop n xs))"
  by pat_completeness auto
termination
  by (relation "measure (\<lambda>(n, xs). length xs)") auto

declare chunks.simps [simp del]

definition lastn :: "nat \<Rightarrow> 'a list \<Rightarrow> 'a list" where
  "lastn n xs = drop (length xs - n) xs"

function to_bytes_be :: "nat \<Rightarrow> nat \<Rightarrow> bytes" where
  "to_bytes_be n v = (if n = 0 then [] else to_bytes_be (n - 1) (v div 256) @ [of_nat (v mod 256)])"
  by pat_completeness auto
termination
  by (relation "measure fst") auto

declare to_bytes_be.simps [simp del]

section \<open>hashlib: SHA-1, and hmac\<close>

text \<open>
  \<open>hashlib.sha1\<close> as FIPS 180-4 defines it: the message is padded to a multiple of 64
  bytes, each block is expanded to 80 words and run through 80 rounds.
\<close>

definition rotl32 :: "nat \<Rightarrow> u32 \<Rightarrow> u32" where
  "rotl32 n x = push_bit n x OR drop_bit (32 - n) x"

definition word32_be :: "bytes \<Rightarrow> u32" where
  "word32_be bs = foldl (\<lambda>acc b. push_bit 8 acc OR ucast b) 0 bs"

definition bytes32_be :: "u32 \<Rightarrow> bytes" where
  "bytes32_be w = map (\<lambda>i. ucast (drop_bit (8 * i) w AND 0xFF)) [3, 2, 1, 0]"

definition bytes64_be :: "64 word \<Rightarrow> bytes" where
  "bytes64_be w = map (\<lambda>i. ucast (drop_bit (8 * i) w AND 0xFF)) [7, 6, 5, 4, 3, 2, 1, 0]"

definition md_pad :: "bytes \<Rightarrow> bytes" where
  "md_pad m =
     m @ 0x80 # replicate ((119 - length m mod 64) mod 64) 0 @ bytes64_be (of_nat (8 * length m))"

fun sha1_schedule :: "nat \<Rightarrow> u32 list \<Rightarrow> u32 list" where
  "sha1_schedule 0 ws = ws"
| "sha1_schedule (Suc n) ws =
     hd ws # sha1_schedule n (tl ws @ [rotl32 1 (ws ! 13 XOR ws ! 8 XOR ws ! 2 XOR ws ! 0)])"

definition sha1_f :: "nat \<Rightarrow> u32 \<Rightarrow> u32 \<Rightarrow> u32 \<Rightarrow> u32" where
  "sha1_f t b c d =
     (if t < 20 then (b AND c) OR (NOT b AND d)
      else if t < 40 then b XOR c XOR d
      else if t < 60 then (b AND c) OR (b AND d) OR (c AND d)
      else b XOR c XOR d)"

definition sha1_k :: "nat \<Rightarrow> u32" where
  "sha1_k t = (if t < 20 then 0x5A827999 else if t < 40 then 0x6ED9EBA1
               else if t < 60 then 0x8F1BBCDC else 0xCA62C1D6)"

fun sha1_rounds :: "nat \<Rightarrow> u32 list \<Rightarrow> u32 list \<Rightarrow> u32 list" where
  "sha1_rounds t (w # ws) [a, b, c, d, e] =
     sha1_rounds (t + 1) ws
       [rotl32 5 a + sha1_f t b c d + e + sha1_k t + w, a, rotl32 30 b, c, d]"
| "sha1_rounds t ws s = s"

definition sha1_compress :: "u32 list \<Rightarrow> bytes \<Rightarrow> u32 list" where
  "sha1_compress h blk =
     map2 (+) h (sha1_rounds 0 (sha1_schedule 64 (map word32_be (chunks 4 blk))) h)"

definition sha1_init :: "u32 list" where
  "sha1_init = [0x67452301, 0xEFCDAB89, 0x98BADCFE, 0x10325476, 0xC3D2E1F0]"

definition sha1 :: "bytes \<Rightarrow> bytes" where
  "sha1 m = concat (map bytes32_be (foldl sha1_compress sha1_init (chunks 64 (md_pad m))))"

text \<open>\<open>hashlib.sha256\<close>, with the same padding and 64 rounds per block.\<close>

definition rotr32 :: "nat \<Rightarrow> u32 \<Rightarrow> u32" where
  "rotr32 n x = drop_bit n x OR push_bit (32 - n) x"

definition sha256_k :: "u32 list" where
  "sha256_k =
    [0x428A2F98, 0x71374491, 0xB5C0FBCF, 0xE9B5DBA5, 0x3956C25B, 0x59F111F1, 0x923F82A4,
     0xAB1C5ED5, 0xD807AA98, 0x12835B01, 0x243185BE, 0x550C7DC3, 0x72BE5D74, 0x80DEB1FE,
     0x9BDC06A7, 0xC19BF174, 0xE49B69C1, 0xEFBE4786, 0x0FC19DC6, 0x240CA1CC, 0x2DE92C6F,
     0x4A7484AA, 0x5CB0A9DC, 0x76F988DA, 0x983E5152, 0xA831C66D, 0xB00327C8, 0xBF597FC7,
     0xC6E00BF3, 0xD5A79147, 0x06CA6351, 0x14292967, 0x27B70A85, 0x2E1B2138, 0x4D2C6DFC,
     0x53380D13, 0x650A7354, 0x766A0ABB, 0x81C2C92E, 0x92722C85, 0xA2BFE8A1, 0xA81A664B,
     0xC24B8B70, 0xC76C51A3, 0xD192E819, 0xD6990624, 0xF40E3585, 0x106AA070, 0x19A4C116,
     0x1E376C08, 0x2748774C, 0x34B0BCB5, 0x391C0CB3, 0x4ED8AA4A, 0x5B9CCA4F, 0x682E6FF3,
     0x748F82EE, 0x78A5636F, 0x84C87814, 0x8CC70208, 0x90BEFFFA, 0xA4506CEB, 0xBEF9A3F7,
     0xC67178F2]"

definition sha256_init :: "u32 list" where
  "sha256_init =
    [0x6A09E667, 0xBB67AE85, 0x3C6EF372, 0xA54FF53A, 0x510E527F, 0x9B05688C, 0x1F83D9AB,
     0x5BE0CD19]"

fun sha256_schedule :: "nat \<Rightarrow> u32 list \<Rightarrow> u32 list" where
  "sha256_schedule 0 ws = ws"
| "sha256_schedule (Suc n) ws =
     hd ws # sha256_schedule n
       (tl ws @
        [(rotr32 17 (ws ! 14) XOR rotr32 19 (ws ! 14) XOR drop_bit 10 (ws ! 14)) + ws ! 9 +
         (rotr32 7 (ws ! 1) XOR rotr32 18 (ws ! 1) XOR drop_bit 3 (ws ! 1)) + ws ! 0])"

fun sha256_rounds :: "u32 list \<Rightarrow> u32 list \<Rightarrow> u32 list \<Rightarrow> u32 list" where
  "sha256_rounds (k # ks) (w # ws) [a, b, c, d, e, f, g, h] =
     (let t1 = h + (rotr32 6 e XOR rotr32 11 e XOR rotr32 25 e) + ((e AND f) XOR (NOT e AND g))
               + k + w;
          t2 = (rotr32 2 a XOR rotr32 13 a XOR rotr32 22 a)
               + ((a AND b) XOR (a AND c) XOR (b AND c))
      in sha256_rounds ks ws [t1 + t2, a, b, c, d + t1, e, f, g])"
| "sha256_rounds ks ws s = s"

definition sha256_compress :: "u32 list \<Rightarrow> bytes \<Rightarrow> u32 list" where
  "sha256_compress h blk =
     map2 (+) h (sha256_rounds sha256_k (sha256_schedule 48 (map word32_be (chunks 4 blk))) h)"

definition sha256 :: "bytes \<Rightarrow> bytes" where
  "sha256 m =
     concat (map bytes32_be (foldl sha256_compress sha256_init (chunks 64 (md_pad m))))"

text \<open>
  \<open>hmac.new(key, msg, digest).digest()\<close> for a digest with 64-byte blocks: a key longer
  than a block is hashed first, then padded with zero bytes to the block size.
\<close>

definition hmac :: "(bytes \<Rightarrow> bytes) \<Rightarrow> bytes \<Rightarrow> bytes \<Rightarrow> bytes" where
  "hmac H key msg =
     (let k0 = (if 64 < length key then H key else key);
          k = k0 @ replicate (64 - length k0) 0
      in H (map (\<lambda>b. b XOR 0x5C) k @ H (map (\<lambda>b. b XOR 0x36) k @ msg)))"

text \<open>
  \<open>hashlib.pbkdf2_hmac('sha256', password, salt, iterations)\<close> with the default
  \<open>dklen\<close> (one 32-byte block): the exclusive or of the \<open>iterations\<close> iterates of
  HMAC-SHA256, starting from \<open>salt || INT(1)\<close>.
\<close>

fun pbkdf2_iter :: "(bytes \<Rightarrow> bytes) \<Rightarrow> nat \<Rightarrow> bytes \<Rightarrow> bytes \<Rightarrow> bytes" where
  "pbkdf2_iter prf 0 u t = t"
| "pbkdf2_iter prf (Suc n) u t = pbkdf2_iter prf n (prf u) (map2 (XOR) t (prf u))"

definition pbkdf2_hmac_sha256 :: "bytes \<Rightarrow> bytes \<Rightarrow> nat \<Rightarrow> bytes" where
  "pbkdf2_hmac_sha256 password salt iterations =
     (let u1 = hmac sha256 password (salt @ [0, 0, 0, 1])
      in pbkdf2_iter (hmac sha256 password) (iterations - 1) u1 u1)"

section \<open>base64.b32decode\<close>

definition b32_alphabet :: string where
  "b32_alphabet = ''ABCDEFGHIJKLMNOPQRSTUVWXYZ234567''"

fun index_of :: "'a \<Rightarrow> 'a list \<Rightarrow> nat option" where
  "index_of c [] = None"
| "index_of c (x # xs) = (if c = x then Some 0 else map_option Suc (index_of c xs))"

definition upper_char :: "char \<Rightarrow> char" where
  "upper_char c =
     (if 97 \<le> (of_char c :: nat) \<and> (of_char c :: nat) \<le> 122
      then char_of ((of_char c :: nat) - 32) else c)"

definition rstrip :: "char \<Rightarrow> string \<Rightarrow> string" where
  "rstrip p s = rev (dropWhile (\<lambda>c. c = p) (rev s))"

text \<open>One quantum of up to eight characters: \<open>acc = (acc << 5) + b32rev[c]\<close>.\<close>

fun b32_quantum :: "string \<Rightarrow> nat \<Rightarrow> exn + nat" where
  "b32_quantum [] acc = Inr acc"
| "b32_quantum (c # cs) acc =
     (case index_of c b32_alphabet of
        None \<Rightarrow> Inl BinasciiError
      | Some v \<Rightarrow> b32_quantum cs (acc * 32 + v))"

text \<open>The loop over the quanta; it returns the decoded bytes and the last \<open>acc\<close>.\<close>

fun b32_quanta :: "string list \<Rightarrow> bytes \<Rightarrow> nat \<Rightarrow> exn + bytes \<times> nat" where
  "b32_quanta [] decoded acc = Inr (decoded, acc)"
| "b32_quanta (q # qs) decoded acc =
     (case b32_quantum q 0 of
        Inl e \<Rightarrow> Inl e
      | Inr acc' \<Rightarrow> b32_quanta qs (decoded @ to_bytes_be 5 acc') acc')"

definition b32decode :: "string \<Rightarrow> exn + bytes" where
  "b32decode s0 =
     (if list_ex (\<lambda>c. 128 \<le> (of_char c :: nat)) s0 then Inl ValueError
      else if length s0 mod 8 \<noteq> 0 then Inl BinasciiError
      else
        let s = map upper_char s0;
            s' = rstrip (CHR ''='') s;
            padchars = length s - length s'
        in case b32_quanta (chunks 8 s') [] 0 of
             Inl e \<Rightarrow> Inl e
           | Inr (decoded, acc) \<Rightarrow>
               if padchars \<notin> {0, 1, 3, 4, 6} then Inl BinasciiError
               else if padchars \<noteq> 0 \<and> decoded \<noteq> [] then
                 Inr (take (length decoded - 5) decoded @
                      take ((43 - 5 * padchars) div 8) (to_bytes_be 5 (acc * 2 ^ (5 * padchars))))
               else Inr decoded)"

section \<open>pyotp: OTP and TOTP\<close>

text \<open>
  \<open>OTP.byte_secret\<close> pads the secret with \<open>=\<close> to a multiple of eight characters and
  decodes it with \<open>casefold=True\<close>.
\<close>

definition pyotp_byte_secret :: "string \<Rightarrow> exn + bytes" where
  "pyotp_byte_secret secret =
     (let missing_padding = length secret mod 8
      in b32decode (if missing_padding \<noteq> 0
                    then secret @ replicate (8 - missing_padding) (CHR ''='')
                    else secret))"

function nat_bytes_be :: "nat \<Rightarrow> bytes" where
  "nat_bytes_be i = (if i = 0 then [] else nat_bytes_be (i div 256) @ [of_nat (i mod 256)])"
  by pat_completeness auto
termination
  by (relation "measure id") auto

declare nat_bytes_be.simps [simp del]

definition int_to_bytestring :: "nat \<Rightarrow> bytes" where
  "int_to_bytestring i = (let r = nat_bytes_be i in replicate (8 - length r) 0 @ r)"

function str_nat :: "nat \<Rightarrow> string" where
  "str_nat n =
     (if n < 10 then [''0123456789'' ! n] else str_nat (n div 10) @ [''0123456789'' ! (n mod 10)])"
  by pat_completeness auto
termination
  by (relation "measure id") auto

declare str_nat.simps [simp del]

text \<open>
  \<open>OTP.generate_otp(input)\<close>: HMAC-SHA1 of the 8-byte counter, dynamic truncation, and the
  last six decimal digits.
\<close>

definition pyotp_generate_otp :: "string \<Rightarrow> int \<Rightarrow> exn + string" where
  "pyotp_generate_otp secret input =
     (if input < 0 then Inl ValueError
      else case pyotp_byte_secret secret of
        Inl e \<Rightarrow> Inl e
      | Inr k \<Rightarrow>
          let hmac_hash = hmac sha1 k (int_to_bytestring (nat input));
              offset = unat (last hmac_hash AND 0xF);
              code = push_bit 24 (unat (hmac_hash ! offset AND 0x7F))
                     OR push_bit 16 (unat (hmac_hash ! (offset + 1) AND 0xFF))
                     OR push_bit 8 (unat (hmac_hash ! (offset + 2) AND 0xFF))
                     OR unat (hmac_hash ! (offset + 3) AND 0xFF)
          in Inr (lastn 6 (str_nat (10000000000 + code mod 10 ^ 6))))"

text \<open>
  \<open>TOTP\<close> with the defaults the repository uses (\<open>interval=30\<close>, six digits, SHA-1). The
  clock is the Unix time in seconds, passed explicitly.
\<close>

definition pyotp_timecode :: "nat \<Rightarrow> int" where
  "pyotp_timecode for_time = int (for_time div 30)"

definition pyotp_at :: "string \<Rightarrow> nat \<Rightarrow> int \<Rightarrow> exn + string" where
  "pyotp_at secret for_time counter_offset =
     pyotp_generate_otp secret (pyotp_timecode for_time + counter_offset)"


text \<open>
  \<open>utils.strings_equal\<close> normalises both strings (NFKC) and compares them with
  \<open>hmac.compare_digest\<close>; on ASCII text, which is what the console delivers here, the
  normalisation is the identity and the result is equality.
\<close>

definition strings_equal :: "string \<Rightarrow> string \<Rightarrow> bool" where
  "strings_equal s1 s2 = (s1 = s2)"

fun pyotp_verify_window :: "string \<Rightarrow> string \<Rightarrow> nat \<Rightarrow> int list \<Rightarrow> exn + bool" where
  "pyotp_verify_window secret otp for_time [] = Inr False"
| "pyotp_verify_window secret otp for_time (i # is) =
     (case pyotp_at secret for_time i of
        Inl e \<Rightarrow> Inl e
      | Inr c \<Rightarrow> if strings_equal otp c then Inr True
                 else pyotp_verify_window secret otp for_time is)"

definition pyotp_verify :: "string \<Rightarrow> string \<Rightarrow> nat \<Rightarrow> nat \<Rightarrow> exn + bool" where
  "pyotp_verify secret otp for_time valid_window =
     (if valid_window \<noteq> 0
      then pyotp_verify_window secret otp for_time [- int valid_window .. int valid_window]
      else case pyotp_at secret for_time 0 of
             Inl e \<Rightarrow> Inl e
           | Inr c \<Rightarrow> Inr (strings_equal otp c))"

section \<open>totp.py\<close>




section \<open>External collaborators\<close>

text \<open>
  What the repository takes from outside and the model does not look into: Python's
  per-process \<open>hash\<close> of a string and numpy's seeded generator (\<open>biometric.py\<close>), the
  AES-128 block cipher under Fernet, and the rendering of the provisioning URI and of the
  QR code. \<open>np_random_rand seed\<close> is the array \<open>np.random.rand(1, 128)\<close> after
  \<open>np.random.seed(seed)\<close>, each float64 as its bit pattern.
\<close>

record env =
  py_hash :: "string \<Rightarrow> int"
  np_random_rand :: "nat \<Rightarrow> 64 word list"
  aes_encrypt :: "bytes \<Rightarrow> bytes \<Rightarrow> bytes"
  aes_decrypt :: "bytes \<Rightarrow> bytes \<Rightarrow> bytes"
  provisioning_uri :: "string \<Rightarrow> string \<Rightarrow> string \<Rightarrow> string"
  qr_print_ascii :: "string \<Rightarrow> string list"

text \<open>
  \<open>os.urandom\<close> reads the next bytes of the operating system's stream; the stream and
  the position in it are part of the state.
\<close>

record rng =
  urandom_src :: "nat \<Rightarrow> byte"
  urandom_pos :: nat

definition os_urandom :: "nat \<Rightarrow> rng \<Rightarrow> bytes \<times> rng" where
  "os_urandom n g =
     (map (urandom_src g) [urandom_pos g ..< urandom_pos g + n],
      g\<lparr>urandom_pos := urandom_pos g + n\<rparr>)"

section \<open>binascii and base64: hexadecimal and URL-safe base64\<close>

definition hex_digits :: string where
  "hex_digits = ''0123456789abcdef''"

text \<open>\<open>bytes.hex()\<close>\<close>

definition hex :: "bytes \<Rightarrow> string" where
  "hex bs = concat (map (\<lambda>b. [hex_digits ! unat (drop_bit 4 b), hex_digits ! unat (b AND 0xF)]) bs)"

definition hex_value :: "char \<Rightarrow> nat option" where
  "hex_value c =
     (case index_of c hex_digits of
        Some v \<Rightarrow> Some v
      | None \<Rightarrow> map_option (\<lambda>v. v + 10) (index_of c ''ABCDEF''))"

definition is_space :: "char \<Rightarrow> bool" where
  "is_space c = (c \<in> set [CHR '' '', CHR 0x09, CHR 0x0A, CHR 0x0B, CHR 0x0C, CHR 0x0D])"

text \<open>
  \<open>bytes.fromhex(string)\<close>: white space is skipped before each pair of digits; anything
  else that is not two hexadecimal digits raises \<open>ValueError\<close>.
\<close>

fun fromhex :: "string \<Rightarrow> exn + bytes" where
  "fromhex [] = Inr []"
| "fromhex [c] = (if is_space c then Inr [] else Inl ValueError)"
| "fromhex (c # d # cs) =
     (if is_space c then fromhex (d # cs)
      else case (hex_value c, hex_value d) of
        (Some hi, Some lo) \<Rightarrow>
          (case fromhex cs of Inl e \<Rightarrow> Inl e | Inr bs \<Rightarrow> Inr (of_nat (hi * 16 + lo) # bs))
      | _ \<Rightarrow> Inl ValueError)"

definition b64_alphabet :: bytes where
  "b64_alphabet =
     map byte_of_char ''ABCDEFGHIJKLMNOPQRSTUVWXYZabcdefghijklmnopqrstuvwxyz0123456789+/''"

definition b64_sym :: "byte \<Rightarrow> byte" where
  "b64_sym v = b64_alphabet ! unat v"

text \<open>\<open>binascii.b2a_base64(s, newline=False)\<close>; \<open>0x3D\<close> is the pad character \<open>=\<close>.\<close>

fun b2a_base64 :: "bytes \<Rightarrow> bytes" where
  "b2a_base64 (a # b # c # rest) =
     [b64_sym (drop_bit 2 a),
      b64_sym (push_bit 4 (a AND 0x03) OR drop_bit 4 b),
      b64_sym (push_bit 2 (b AND 0x0F) OR drop_bit 6 c),
      b64_sym (c AND 0x3F)] @ b2a_base64 rest"
| "b2a_base64 [a, b] =
     [b64_sym (drop_bit 2 a),
      b64_sym (push_bit 4 (a AND 0x03) OR drop_bit 4 b),
      b64_sym (push_bit 2 (b AND 0x0F)),
      0x3D]"
| "b2a_base64 [a] =
     [b64_sym (drop_bit 2 a), b64_sym (push_bit 4 (a AND 0x03)), 0x3D, 0x3D]"
| "b2a_base64 [] = []"

text \<open>
  \<open>binascii.a2b_base64(s)\<close> in its default, non-strict mode: characters outside the
  alphabet are skipped, a pad character that completes a quad ends the input, and an
  incomplete quad at the end raises \<open>binascii.Error\<close>. The arguments after the input are
  \<open>quad_pos\<close>, \<open>leftchar\<close>, \<open>pads\<close> and the bytes written so far.
\<close>

fun a2b_loop :: "bytes \<Rightarrow> nat \<Rightarrow> byte \<Rightarrow> nat \<Rightarrow> bytes \<Rightarrow> exn + bytes" where
  "a2b_loop [] quad_pos leftchar pads out =
     (if quad_pos \<noteq> 0 then Inl BinasciiError else Inr out)"
| "a2b_loop (this_ch # rest) quad_pos leftchar pads out =
     (if this_ch = 0x3D then
        (if 2 \<le> quad_pos \<and> 4 \<le> quad_pos + (pads + 1) then Inr out
         else a2b_loop rest quad_pos leftchar (if 2 \<le> quad_pos then pads + 1 else pads) out)
      else case index_of this_ch b64_alphabet of
        None \<Rightarrow> a2b_loop rest quad_pos leftchar pads out
      | Some n \<Rightarrow>
          (let v = of_nat n in
           if quad_pos = 0 then a2b_loop rest 1 v 0 out
           else if quad_pos = 1 then
             a2b_loop rest 2 (v AND 0x0F) 0 (out @ [push_bit 2 leftchar OR drop_bit 4 v])
           else if quad_pos = 2 then
             a2b_loop rest 3 (v AND 0x03) 0 (out @ [push_bit 4 leftchar OR drop_bit 2 v])
           else a2b_loop rest 0 0 0 (out @ [push_bit 6 leftchar OR v])))"

definition a2b_base64 :: "bytes \<Rightarrow> exn + bytes" where
  "a2b_base64 s = a2b_loop s 0 0 0 []"

text \<open>The URL-safe variants exchange \<open>+\<close> and \<open>/\<close> for \<open>-\<close> and \<open>_\<close>.\<close>

definition urlsafe_b64encode :: "bytes \<Rightarrow> bytes" where
  "urlsafe_b64encode s =
     map (\<lambda>c. if c = 0x2B then 0x2D else if c = 0x2F then 0x5F else c) (b2a_base64 s)"

definition urlsafe_b64decode :: "bytes \<Rightarrow> exn + bytes" where
  "urlsafe_b64decode s =
     a2b_base64 (map (\<lambda>c. if c = 0x2D then 0x2B else if c = 0x5F then 0x2F else c) s)"

section \<open>cryptography.fernet\<close>

text \<open>PKCS7 padding to 16-byte blocks, and the check the unpadder makes on the last block.\<close>

definition pkcs7_pad :: "bytes \<Rightarrow> bytes" where
  "pkcs7_pad data =
     (let n = 16 - length data mod 16 in data @ replicate n (of_nat n))"

definition pkcs7_unpad :: "bytes \<Rightarrow> exn + bytes" where
  "pkcs7_unpad padded =
     (if padded = [] \<or> length padded mod 16 \<noteq> 0 then Inl ValueError
      else
        let pad_size = unat (last padded)
        in if pad_size = 0 \<or> 16 < pad_size
              \<or> \<not> list_all (\<lambda>b. b = last padded) (lastn pad_size padded)
           then Inl ValueError
           else Inr (take (length padded - pad_size) padded))"

text \<open>AES in CBC mode over the block cipher of the environment.\<close>

fun cbc_encrypt :: "(bytes \<Rightarrow> bytes) \<Rightarrow> bytes \<Rightarrow> bytes list \<Rightarrow> bytes" where
  "cbc_encrypt E prev [] = []"
| "cbc_encrypt E prev (p # ps) =
     (let c = E (map2 (XOR) p prev) in c @ cbc_encrypt E c ps)"

fun cbc_decrypt :: "(bytes \<Rightarrow> bytes) \<Rightarrow> bytes \<Rightarrow> bytes list \<Rightarrow> bytes" where
  "cbc_decrypt D prev [] = []"
| "cbc_decrypt D prev (c # cs) = map2 (XOR) (D c) prev @ cbc_decrypt D c cs"

record fernet =
  signing_key :: bytes
  encryption_key :: bytes

text \<open>\<open>Fernet(key)\<close>: the key is 32 bytes in URL-safe base64, or \<open>ValueError\<close>.\<close>

definition Fernet :: "bytes \<Rightarrow> exn + fernet" where
  "Fernet k =
     (case urlsafe_b64decode k of
        Inl e \<Rightarrow> Inl ValueError
      | Inr raw \<Rightarrow>
          if length raw \<noteq> 32 then Inl ValueError
          else Inr \<lparr>signing_key = take 16 raw, encryption_key = drop 16 raw\<rparr>)"

definition fernet_generate_key :: "rng \<Rightarrow> bytes \<times> rng" where
  "fernet_generate_key g = (case os_urandom 32 g of (raw, g') \<Rightarrow> (urlsafe_b64encode raw, g'))"

definition fernet_encrypt_from_parts ::
  "env \<Rightarrow> fernet \<Rightarrow> bytes \<Rightarrow> nat \<Rightarrow> bytes \<Rightarrow> exn + bytes" where
  "fernet_encrypt_from_parts env f data current_time iv =
     (let padded_data = pkcs7_pad data;
          ciphertext = cbc_encrypt (aes_encrypt env (encryption_key f)) iv (chunks 16 padded_data)
      in if 2 ^ 64 \<le> current_time then Inl OverflowError
         else
           let basic_parts = 0x80 # to_bytes_be 8 current_time @ iv @ ciphertext;
               tag = hmac sha256 (signing_key f) basic_parts
           in Inr (urlsafe_b64encode (basic_parts @ tag)))"

text \<open>\<open>Fernet.encrypt(data)\<close> reads the clock and draws a 16-byte IV.\<close>

definition fernet_encrypt :: "env \<Rightarrow> fernet \<Rightarrow> bytes \<Rightarrow> nat \<Rightarrow> rng \<Rightarrow> (exn + bytes) \<times> rng" where
  "fernet_encrypt env f data current_time g =
     (case os_urandom 16 g of
        (iv, g') \<Rightarrow> (fernet_encrypt_from_parts env f data current_time iv, g'))"

text \<open>
  \<open>Fernet.decrypt(token)\<close> with \<open>ttl=None\<close>: every failure on the way (base64, version
  byte, length, signature, block length, padding) is raised as \<open>InvalidToken\<close>.
\<close>

definition fernet_decrypt :: "env \<Rightarrow> fernet \<Rightarrow> bytes \<Rightarrow> exn + bytes" where
  "fernet_decrypt env f token =
     (case urlsafe_b64decode token of
        Inl e \<Rightarrow> Inl InvalidToken
      | Inr data \<Rightarrow>
          if data = [] \<or> hd data \<noteq> 0x80 then Inl InvalidToken
          else if length data < 9 then Inl InvalidToken
          else if hmac sha256 (signing_key f) (take (length data - 32) data) \<noteq> lastn 32 data
          then Inl InvalidToken
          else
            let iv = take 16 (drop 9 data);
                ciphertext = take (length data - 32 - 25) (drop 25 data)
            in if length iv \<noteq> 16 then Inl ValueError
               else if length ciphertext mod 16 \<noteq> 0 then Inl InvalidToken
               else
                 case pkcs7_unpad
                        (cbc_decrypt (aes_decrypt env (encryption_key f)) iv (chunks 16 ciphertext)) of
                   Inl e \<Rightarrow> Inl InvalidToken
                 | Inr unpadded \<Rightarrow> Inr unpadded)"

section \<open>encryption.py\<close>

text \<open>
  \<open>encrypt_data\<close> draws the key, then the 16 bytes it returns as the nonce, then
  encrypts; the nonce takes no part in the encryption.
\<close>

definition encrypt_data ::
  "env \<Rightarrow> bytes \<Rightarrow> nat \<Rightarrow> rng \<Rightarrow> (exn + bytes \<times> bytes \<times> bytes) \<times> rng" where
  "encrypt_data env data current_time g =
     (case fernet_generate_key g of
        (k, g1) \<Rightarrow>
          (case Fernet k of
             Inl e \<Rightarrow> (Inl e, g1)
           | Inr f \<Rightarrow>
               (case os_urandom 16 g1 of
                  (nonce, g2) \<Rightarrow>
                    (case fernet_encrypt env f data current_time g2 of
                       (Inl e, g3) \<Rightarrow> (Inl e, g3)
                     | (Inr encrypted_data, g3) \<Rightarrow> (Inr (k, nonce, encrypted_data), g3)))))"

definition decrypt_data :: "env \<Rightarrow> bytes \<Rightarrow> bytes \<Rightarrow> bytes \<Rightarrow> exn + bytes" where
  "decrypt_data env k nonce encrypted_data =
     (case Fernet k of
        Inl e \<Rightarrow> Inl e
      | Inr f \<Rightarrow> fernet_decrypt env f encrypted_data)"

section \<open>hashing.py\<close>

text \<open>\<open>ndarray.tobytes()\<close> of a float64 array: eight bytes per element, low byte first.\<close>

definition tobytes :: "64 word list \<Rightarrow> bytes" where
  "tobytes data = concat (map (\<lambda>x. rev (bytes64_be x)) data)"

text \<open>
  \<open>generate_hash(data, salt=None)\<close>. Nothing in it raises: the result is always
  \<open>Inr\<close>.
\<close>

definition generate_hash ::
  "64 word list \<Rightarrow> bytes option \<Rightarrow> rng \<Rightarrow> (exn + bytes \<times> bytes) \<times> rng" where
  "generate_hash data salt g =
     (case (case salt of None \<Rightarrow> os_urandom 16 g | Some s \<Rightarrow> (s, g)) of
        (salt', g') \<Rightarrow>
          (let data_bytes = tobytes data;
               hash_obj = pbkdf2_hmac_sha256 data_bytes salt' 100000
           in (Inr (salt', hash_obj), g')))"

definition verify_hash :: "64 word list \<Rightarrow> bytes \<Rightarrow> bytes \<Rightarrow> rng \<Rightarrow> (exn + bool) \<times> rng" where
  "verify_hash data salt stored_hash g =
     (case generate_hash data (Some salt) g of
        (Inl e, g') \<Rightarrow> (Inl e, g')
      | (Inr (s, new_hash), g') \<Rightarrow> (Inr (new_hash = stored_hash), g'))"

section \<open>biometric.py\<close>

definition generate_mock_fingerprint :: "env \<Rightarrow> string \<Rightarrow> 64 word list" where
  "generate_mock_fingerprint env username =
     np_random_rand env (nat (py_hash env username mod 2 ^ 32))"

section \<open>auth.py\<close>

text \<open>
  The stored record of a user, as the JSON file holds it: four byte strings in
  hexadecimal and the TOTP secret in base32.
\<close>

record user_data =
  salt_hex :: string
  encrypted_hash_hex :: string
  key_hex :: string
  nonce_hex :: string
  otp_secret :: string

text \<open>
  The state the functions of \<open>auth.py\<close> work on: the file \<open>users.json\<close> (\<open>None\<close> when
  it does not exist), the console, the clock and the random stream.
\<close>

record world =
  user_db :: "(string \<rightharpoonup> user_data) option"
  stdin :: "string list"
  stdout :: "string list"
  clock :: nat
  entropy :: rng

datatype reg_outcome = UserAlreadyExists | Registered

datatype auth_outcome = UserNotFound | BiometricCheckFailed | OtpCheckFailed | AuthSuccess

definition load_users :: "world \<Rightarrow> (string \<rightharpoonup> user_data)" where
  "load_users w = (case user_db w of None \<Rightarrow> Map.empty | Some users \<Rightarrow> users)"

definition save_users :: "(string \<rightharpoonup> user_data) \<Rightarrow> world \<Rightarrow> world" where
  "save_users users w = w\<lparr>user_db := Some users\<rparr>"

definition print :: "string \<Rightarrow> world \<Rightarrow> world" where
  "print line w = w\<lparr>stdout := stdout w @ [line]\<rparr>"

text \<open>\<open>input(prompt)\<close> writes the prompt and reads a line, or raises \<open>EOFError\<close>.\<close>

definition input :: "string \<Rightarrow> world \<Rightarrow> (exn + string) \<times> world" where
  "input prompt w =
     (case stdin w of
        [] \<Rightarrow> (Inl EOFError, print prompt w)
      | line # rest \<Rightarrow> (Inr line, (print prompt w)\<lparr>stdin := rest\<rparr>))"

text \<open>
  \<open>pyotp.random_base32()\<close>: 32 characters of the base32 alphabet, each chosen by the
  system's random generator (here: one byte of the stream, reduced modulo 32).
\<close>

definition random_base32 :: "rng \<Rightarrow> string \<times> rng" where
  "random_base32 g =
     (case os_urandom 32 g of
        (raw, g') \<Rightarrow> (map (\<lambda>b. b32_alphabet ! (unat b mod 32)) raw, g'))"

text \<open>\<open>generate_otp_secret\<close> of \<open>totp.py\<close> is that call and nothing else.\<close>

definition generate_otp_secret :: "rng \<Rightarrow> string \<times> rng" where
  "generate_otp_secret g = random_base32 g"

definition otp_prompt :: string where
  "otp_prompt = ''Enter OTP from your authenticator app: ''"

definition generate_qr_code :: "env \<Rightarrow> string \<Rightarrow> string \<Rightarrow> world \<Rightarrow> world" where
  "generate_qr_code env username secret w =
     (let otp_uri = provisioning_uri env secret username ''BioHash Authenticator'';
          w1 = print ''Scan this QR code using Google Authenticator or Authy:'' w;
          w2 = w1\<lparr>stdout := stdout w1 @ qr_print_ascii env otp_uri\<rparr>
      in print (''Alternatively, enter this manually: '' @ secret) w2)"

definition register_user :: "env \<Rightarrow> string \<Rightarrow> world \<Rightarrow> (exn + reg_outcome) \<times> world" where
  "register_user env username w =
     (let users = load_users w in
      if users username \<noteq> None then (Inr UserAlreadyExists, print ''User already exists!'' w)
      else
        let fingerprint = generate_mock_fingerprint env username
        in case generate_hash fingerprint None (entropy w) of
             (Inl e, g1) \<Rightarrow> (Inl e, w\<lparr>entropy := g1\<rparr>)
           | (Inr (salt, biometric_hash), g1) \<Rightarrow>
               (case encrypt_data env biometric_hash (clock w) g1 of
                  (Inl e, g2) \<Rightarrow> (Inl e, w\<lparr>entropy := g2\<rparr>)
                | (Inr (k, nonce, encrypted_hash), g2) \<Rightarrow>
                    (case random_base32 g2 of
                       (secret, g3) \<Rightarrow>
                         let users' = users(username \<mapsto>
                               \<lparr>salt_hex = hex salt,
                                encrypted_hash_hex = hex encrypted_hash,
                                key_hex = hex k,
                                nonce_hex = hex nonce,
                                otp_secret = secret\<rparr>);
                             w1 = save_users users' (w\<lparr>entropy := g3\<rparr>);
                             w2 = print (''User '' @ username @ '' registered successfully!'') w1
                         in (Inr Registered, generate_qr_code env username secret w2))))"

definition authenticate_user :: "env \<Rightarrow> string \<Rightarrow> world \<Rightarrow> (exn + auth_outcome) \<times> world" where
  "authenticate_user env username w =
     (let users = load_users w in
      case users username of
        None \<Rightarrow> (Inr UserNotFound, print ''User not found!'' w)
      | Some ud \<Rightarrow>
          (case fromhex (salt_hex ud) of Inl e \<Rightarrow> (Inl e, w) | Inr salt \<Rightarrow>
           case fromhex (encrypted_hash_hex ud) of Inl e \<Rightarrow> (Inl e, w) | Inr encrypted_hash \<Rightarrow>
           case fromhex (key_hex ud) of Inl e \<Rightarrow> (Inl e, w) | Inr k \<Rightarrow>
           case fromhex (nonce_hex ud) of Inl e \<Rightarrow> (Inl e, w) | Inr nonce \<Rightarrow>
           let new_fingerprint = generate_mock_fingerprint env username
           in case generate_hash new_fingerprint (Some salt) (entropy w) of
                (Inl e, g) \<Rightarrow> (Inl e, w\<lparr>entropy := g\<rparr>)
              | (Inr (s, new_hash), g) \<Rightarrow>
                  (let w0 = w\<lparr>entropy := g\<rparr> in
                   case decrypt_data env k nonce encrypted_hash of
                     Inl e \<Rightarrow> (Inl e, w0)
                   | Inr decrypted_hash \<Rightarrow>
                       if new_hash \<noteq> decrypted_hash
                       then (Inr BiometricCheckFailed, print ''Biometric authentication failed!'' w0)
                       else
                         (case input otp_prompt w0 of
                            (Inl e, w1) \<Rightarrow> (Inl e, w1)
                          | (Inr otp, w1) \<Rightarrow>
                              (case pyotp_verify (otp_secret ud) otp (clock w1) 0 of
                                 Inl e \<Rightarrow> (Inl e, w1)
                               | Inr ok \<Rightarrow>
                                   if \<not> ok
                                   then (Inr OtpCheckFailed, print ''OTP verification failed!'' w1)
                                   else (Inr AuthSuccess, print ''Authentication Successful!'' w1))))))"

section \<open>A small environment for concrete instances\<close>

text \<open>
  The general theorems below hold for every environment. Concrete instances are evaluated
  in this one: a block cipher that adds the key to the block, a fingerprint that depends
  on the length of the name only, and a random stream that counts upwards.
\<close>

definition toy_env :: env where
  "toy_env =
     \<lparr>py_hash = (\<lambda>s. int (length s)),
      np_random_rand = (\<lambda>seed. replicate 128 (of_nat seed)),
      aes_encrypt = (\<lambda>k b. map2 (XOR) b k),
      aes_decrypt = (\<lambda>k b. map2 (XOR) b k),
      provisioning_uri = (\<lambda>secret name issuer.
         ''otpauth://totp/'' @ issuer @ '':'' @ name @ ''?secret='' @ secret),
      qr_print_ascii = (\<lambda>uri. [uri])\<rparr>"

definition toy_rng :: rng where
  "toy_rng = \<lparr>urandom_src = (\<lambda>i. of_nat i), urandom_pos = 0\<rparr>"

definition empty_world :: world where
  "empty_world = \<lparr>user_db = None, stdin = [], stdout = [], clock = 59, entropy = toy_rng\<rparr>"

definition rfc_secret :: string where
  "rfc_secret = ''GEZDGNBVGY3TQOJQGEZDGNBVGY3TQOJQ''"

text \<open>
  A stored record for the user \<open>alice\<close>, and the same record with the lowest bit of the
  first byte of the sealed digest flipped (\<open>0x67\<close> becomes \<open>0x66\<close>).
\<close>

definition alice_record :: user_data where
  "alice_record =
     \<lparr>salt_hex = ''000102030405060708090a0b0c0d0e0f'',
      encrypted_hash_hex =
        ''6741414141414141414141375145464351305246526b64495355704c5445314f54354b303659736e4b656b67'' @
        ''2d56442d354c4535784a6c736f3559382d504d466c6e6d556d5079576d734c6e584a4b6b44387a474d364642'' @
        ''72614c4871716638325041764f313758502d546d75384e65755539416c516f467a6c6b42436e6e514a593471'' @
        ''6a705a307475796c'',
      key_hex =
        ''45424553457851564668635947526f62484230654879416849694d6b4a53596e4b436b714b7977744c69383d'',
      nonce_hex = ''303132333435363738393a3b3c3d3e3f'',
      otp_secret = ''QRSTUVWXYZ234567ABCDEFGHIJKLMNOP''\<rparr>"

definition tampered_record :: user_data where
  "tampered_record =
     alice_record\<lparr>encrypted_hash_hex := ''66'' @ drop 2 (encrypted_hash_hex alice_record)\<rparr>"

definition enrolled_world :: world where
  "enrolled_world =
     empty_world\<lparr>user_db := Some [''alice'' \<mapsto> alice_record], stdin := [''000000'']\<rparr>"

definition tampered_world :: world where
  "tampered_world =
     empty_world\<lparr>user_db := Some [''alice'' \<mapsto> tampered_record], stdin := [''000000'']\<rparr>"

section \<open>What the biometric gate tests\<close>

text \<open>
  \<open>biometric_match\<close> is the condition under which \<open>authenticate_user\<close> gets past its
  comparison \<open>new_hash != decrypted_hash\<close>: the user has a record, its four byte fields
  decode, the stored digest decrypts, and it equals the digest of the fresh fingerprint
  under the stored salt.
\<close>

definition biometric_match :: "env \<Rightarrow> string \<Rightarrow> world \<Rightarrow> bool" where
  "biometric_match env username w =
     (case load_users w username of
        None \<Rightarrow> False
      | Some ud \<Rightarrow>
          (case (fromhex (salt_hex ud), fromhex (encrypted_hash_hex ud),
                 fromhex (key_hex ud), fromhex (nonce_hex ud)) of
             (Inr salt, Inr encrypted_hash, Inr k, Inr nonce) \<Rightarrow>
               (case decrypt_data env k nonce encrypted_hash of
                  Inl e \<Rightarrow> False
                | Inr decrypted_hash \<Rightarrow>
                    pbkdf2_hmac_sha256 (tobytes (generate_mock_fingerprint env username)) salt 100000
                      = decrypted_hash)
           | _ \<Rightarrow> False))"

section \<open>Evaluating HMAC-SHA1 on concrete inputs\<close>

text \<open>
  The secret of the test vectors of RFC 4226 and the counters 0 and 1. Each compression
  is evaluated in a lemma of its own.
\<close>

lemma sha1_schedule_unfold:
  "0 < n \<Longrightarrow> sha1_schedule n ws =
     hd ws # sha1_schedule (n - 1) (tl ws @ [rotl32 1 (ws ! 13 XOR ws ! 8 XOR ws ! 2 XOR ws ! 0)])"
  by (cases n) simp_all

lemma replicate_unfold: "0 < n \<Longrightarrow> replicate n x = x # replicate (n - 1) x"
  by (cases n) simp_all

lemmas sha1_eval = sha1_compress_def chunks.simps word32_be_def sha1_schedule_unfold rotl32_def
  sha1_f_def sha1_k_def

lemma sha1_counter0_inner_block0:
  "sha1_compress
    [1732584193, 4023233417, 2562383102, 271733878, 3285377520]
    [7, 4, 5, 2, 3, 0, 1, 14, 15, 6, 7, 4, 5, 2, 3, 0, 1, 14, 15, 6, 54, 54, 54, 54, 54, 54, 54, 54,
    54, 54, 54, 54, 54, 54, 54, 54, 54, 54, 54, 54, 54, 54, 54, 54, 54, 54, 54, 54, 54, 54, 54, 54,
    54, 54, 54, 54, 54, 54, 54, 54, 54, 54, 54, 54] =
    [3418885260, 4120502956, 3183003698, 3667247555, 4167577637]"
  by (simp add: sha1_eval)

lemma sha1_counter0_inner_block1:
  "sha1_compress
    [3418885260, 4120502956, 3183003698, 3667247555, 4167577637]
    [0, 0, 0, 0, 0, 0, 0, 0, 128, 0, 0, 0, 0, 0, 0, 0, 0, 0, 0, 0, 0, 0, 0, 0, 0, 0, 0, 0, 0, 0, 0,
    0, 0, 0, 0, 0, 0, 0, 0, 0, 0, 0, 0, 0, 0, 0, 0, 0, 0, 0, 0, 0, 0, 0, 0, 0, 0, 0, 0, 0, 0, 0, 2,
    64] =
    [143776190, 163256007, 3362926067, 1759011664, 1719552414]"
  by (simp add: sha1_eval)

lemma sha1_counter0_inner:
  "sha1
    [7, 4, 5, 2, 3, 0, 1, 14, 15, 6, 7, 4, 5, 2, 3, 0, 1, 14, 15, 6, 54, 54, 54, 54, 54, 54, 54, 54,
    54, 54, 54, 54, 54, 54, 54, 54, 54, 54, 54, 54, 54, 54, 54, 54, 54, 54, 54, 54, 54, 54, 54, 54,
    54, 54, 54, 54, 54, 54, 54, 54, 54, 54, 54, 54, 0, 0, 0, 0, 0, 0, 0, 0] =
    [8, 145, 217, 190, 9, 187, 22, 199, 200, 114, 45, 243, 104, 216, 99, 80, 102, 126, 73, 158]"
  by (simp add: sha1_def md_pad_def bytes64_be_def bytes32_be_def chunks.simps replicate_unfold
      sha1_init_def sha1_counter0_inner_block0 sha1_counter0_inner_block1)

lemma sha1_counter0_outer_block0:
  "sha1_compress
    [1732584193, 4023233417, 2562383102, 271733878, 3285377520]
    [109, 110, 111, 104, 105, 106, 107, 100, 101, 108, 109, 110, 111, 104, 105, 106, 107, 100, 101,
    108, 92, 92, 92, 92, 92, 92, 92, 92, 92, 92, 92, 92, 92, 92, 92, 92, 92, 92, 92, 92, 92, 92, 92,
    92, 92, 92, 92, 92, 92, 92, 92, 92, 92, 92, 92, 92, 92, 92, 92, 92, 92, 92, 92, 92] =
    [2562571725, 1491106814, 2908544490, 985678603, 4262488101]"
  by (simp add: sha1_eval)

lemma sha1_counter0_outer_block1:
  "sha1_compress
    [2562571725, 1491106814, 2908544490, 985678603, 4262488101]
    [8, 145, 217, 190, 9, 187, 22, 199, 200, 114, 45, 243, 104, 216, 99, 80, 102, 126, 73, 158, 128,
    0, 0, 0, 0, 0, 0, 0, 0, 0, 0, 0, 0, 0, 0, 0, 0, 0, 0, 0, 0, 0, 0, 0, 0, 0, 0, 0, 0, 0, 0, 0, 0,
    0, 0, 0, 0, 0, 0, 0, 0, 0, 2, 160] =
    [3432238872, 1351455891, 1281668701, 2343003775, 3083723952]"
  by (simp add: sha1_eval)

lemma sha1_counter0_outer:
  "sha1
    [109, 110, 111, 104, 105, 106, 107, 100, 101, 108, 109, 110, 111, 104, 105, 106, 107, 100, 101,
    108, 92, 92, 92, 92, 92, 92, 92, 92, 92, 92, 92, 92, 92, 92, 92, 92, 92, 92, 92, 92, 92, 92, 92,
    92, 92, 92, 92, 92, 92, 92, 92, 92, 92, 92, 92, 92, 92, 92, 92, 92, 92, 92, 92, 92, 8, 145, 217,
    190, 9, 187, 22, 199, 200, 114, 45, 243, 104, 216, 99, 80, 102, 126, 73, 158] =
    [204, 147, 207, 24, 80, 141, 148, 147, 76, 100, 182, 93, 139, 167, 102, 127, 183, 205, 228, 176]"
  by (simp add: sha1_def md_pad_def bytes64_be_def bytes32_be_def chunks.simps replicate_unfold
      sha1_init_def sha1_counter0_outer_block0 sha1_counter0_outer_block1)

lemma hmac_sha1_counter0:
  "hmac sha1
    [49, 50, 51, 52, 53, 54, 55, 56, 57, 48, 49, 50, 51, 52, 53, 54, 55, 56, 57, 48]
    [0, 0, 0, 0, 0, 0, 0, 0] =
    [204, 147, 207, 24, 80, 141, 148, 147, 76, 100, 182, 93, 139, 167, 102, 127, 183, 205, 228, 176]"
  by (simp add: hmac_def Let_def replicate_unfold sha1_counter0_inner sha1_counter0_outer)
















lemma rfc_secret_bytes:
  "pyotp_byte_secret rfc_secret =
     Inr [49, 50, 51, 52, 53, 54, 55, 56, 57, 48, 49, 50, 51, 52, 53, 54, 55, 56, 57, 48]"
  by (simp add: rfc_secret_def pyotp_byte_secret_def b32decode_def upper_char_def rstrip_def
      chunks.simps b32_alphabet_def to_bytes_be.simps)

lemma int_to_bytestring_0: "int_to_bytestring 0 = [0, 0, 0, 0, 0, 0, 0, 0]"
  by (simp add: int_to_bytestring_def nat_bytes_be.simps replicate_unfold)


lemma code_counter0: "lastn 6 (str_nat 10000755224) = ''755224''"
  by (simp add: lastn_def str_nat.simps)


lemma hotp_counter0: "pyotp_generate_otp rfc_secret 0 = Inr ''755224''"
  by (simp add: pyotp_generate_otp_def rfc_secret_bytes int_to_bytestring_0 hmac_sha1_counter0
      Let_def code_counter0)











section \<open>One-time passwords\<close>





text \<open>
  The window is there in \<open>pyotp\<close>, and the repository does not use it: called with
  \<open>valid_window = 1\<close>, the same check accepts the code of the preceding step.
\<close>

lemma pyotp_verify_with_window:
  "pyotp_verify rfc_secret ''755224'' 59 1 = Inr True"
  by (simp add: pyotp_verify_def upto.simps pyotp_at_def pyotp_timecode_def hotp_counter0
      strings_equal_def)

section \<open>Sealing and opening\<close>

text \<open>
  C9: \<open>decrypt_data\<close> never looks at its nonce argument; two calls that differ in the
  nonce only have the same outcome, the raised exception included.
\<close>

theorem decrypt_data_ignores_nonce:
  "decrypt_data env k nonce1 encrypted_data = decrypt_data env k nonce2 encrypted_data"
  by (simp add: decrypt_data_def)

section \<open>Hashing\<close>

lemma generate_hash_Some [simp]:
  "generate_hash data (Some s) g = (Inr (s, pbkdf2_hmac_sha256 (tobytes data) s 100000), g)"
  by (simp add: generate_hash_def)


lemma sha256_rounds_length:
  "length s = 8 \<Longrightarrow> length (sha256_rounds ks ws s) = 8"
  by (induction ks ws s rule: sha256_rounds.induct) (simp_all add: Let_def)

lemma sha256_compress_length: "length h = 8 \<Longrightarrow> length (sha256_compress h blk) = 8"
  by (simp add: sha256_compress_def sha256_rounds_length)

lemma foldl_sha256_compress_length:
  "length h = 8 \<Longrightarrow> length (foldl sha256_compress h blks) = 8"
  by (induction blks arbitrary: h) (simp_all add: sha256_compress_length)

lemma concat_bytes32_be_length: "length (concat (map bytes32_be ws)) = 4 * length ws"
  by (induction ws) (simp_all add: bytes32_be_def)

lemma sha256_length [simp]: "length (sha256 m) = 32"
  by (simp add: sha256_def concat_bytes32_be_length foldl_sha256_compress_length sha256_init_def)

lemma hmac_sha256_length [simp]: "length (hmac sha256 k m) = 32"
  by (simp add: hmac_def Let_def)

lemma pbkdf2_iter_length:
  "(\<And>x. length (prf x) = 32) \<Longrightarrow> length t = 32 \<Longrightarrow> length (pbkdf2_iter prf n u t) = 32"
  by (induction n arbitrary: u t) simp_all

lemma pbkdf2_hmac_sha256_length [simp]: "length (pbkdf2_hmac_sha256 password salt n) = 32"
  by (simp add: pbkdf2_hmac_sha256_def Let_def pbkdf2_iter_length)




section \<open>Enrolment and verification\<close>

lemma authenticate_user_cases:
  "authenticate_user env username w =
     (case load_users w username of
        None \<Rightarrow> (Inr UserNotFound, print ''User not found!'' w)
      | Some ud \<Rightarrow>
          (case fromhex (salt_hex ud) of Inl e \<Rightarrow> (Inl e, w) | Inr salt \<Rightarrow>
           case fromhex (encrypted_hash_hex ud) of Inl e \<Rightarrow> (Inl e, w) | Inr encrypted_hash \<Rightarrow>
           case fromhex (key_hex ud) of Inl e \<Rightarrow> (Inl e, w) | Inr k \<Rightarrow>
           case fromhex (nonce_hex ud) of Inl e \<Rightarrow> (Inl e, w) | Inr nonce \<Rightarrow>
           case decrypt_data env k nonce encrypted_hash of
             Inl e \<Rightarrow> (Inl e, w)
           | Inr decrypted_hash \<Rightarrow>
               if pbkdf2_hmac_sha256 (tobytes (generate_mock_fingerprint env username)) salt 100000
                    \<noteq> decrypted_hash
               then (Inr BiometricCheckFailed, print ''Biometric authentication failed!'' w)
               else
                 (case input otp_prompt w of
                    (Inl e, w1) \<Rightarrow> (Inl e, w1)
                  | (Inr otp, w1) \<Rightarrow>
                      (case pyotp_verify (otp_secret ud) otp (clock w1) 0 of
                         Inl e \<Rightarrow> (Inl e, w1)
                       | Inr ok \<Rightarrow>
                           if \<not> ok
                           then (Inr OtpCheckFailed, print ''OTP verification failed!'' w1)
                           else (Inr AuthSuccess, print ''Authentication Successful!'' w1)))))"
  by (simp add: authenticate_user_def Let_def split: option.splits sum.splits)

lemma input_effect:
  "input prompt w = (r, w1) \<Longrightarrow>
     user_db w1 = user_db w \<and> clock w1 = clock w \<and> entropy w1 = entropy w \<and>
     stdout w1 = stdout w @ [prompt] \<and> stdin w1 = tl (stdin w)"
  by (auto simp: input_def print_def split: list.splits)

text \<open>
  C10: whatever the outcome, \<open>authenticate_user\<close> leaves the file of the users as it
  was.
\<close>

theorem authenticate_user_keeps_store:
  "user_db (snd (authenticate_user env username w)) = user_db w"
  by (auto simp: authenticate_user_cases print_def split: option.splits sum.splits prod.splits
      dest: input_effect)

theorem authenticate_user_keeps_store_witness:
  "user_db (snd (authenticate_user toy_env ''alice'' tampered_world)) = user_db tampered_world"
  using authenticate_user_keeps_store [of toy_env "''alice''" tampered_world] by simp

text \<open>
  C6: enrolling a user who is in the store already ends with \<open>UserAlreadyExists\<close>; the
  store, the clock, the random stream and the input are untouched, one line is printed.
\<close>

theorem register_user_existing:
  "load_users w username = Some ud \<Longrightarrow>
     fst (register_user env username w) = Inr UserAlreadyExists \<and>
     user_db (snd (register_user env username w)) = user_db w \<and>
     snd (register_user env username w) = w\<lparr>stdout := stdout w @ [''User already exists!'']\<rparr>"
  by (simp add: register_user_def print_def)

lemma load_users_enrolled: "load_users enrolled_world ''alice'' = Some alice_record"
  by (simp add: load_users_def enrolled_world_def empty_world_def)

theorem register_user_existing_witness:
  "load_users enrolled_world ''alice'' = Some alice_record \<and>
   fst (register_user toy_env ''alice'' enrolled_world) = Inr UserAlreadyExists \<and>
   user_db (snd (register_user toy_env ''alice'' enrolled_world)) = user_db enrolled_world"
  using register_user_existing [OF load_users_enrolled, of toy_env] load_users_enrolled by simp

text \<open>
  In particular, after an enrolment that succeeded, enrolling the same name again is
  refused and changes nothing in the store.
\<close>

lemma register_user_twice:
  assumes "register_user env username w = (Inr Registered, w1)"
  shows "fst (register_user env username w1) = Inr UserAlreadyExists \<and>
         user_db (snd (register_user env username w1)) = user_db w1"
proof -
  from assms have "load_users w1 username \<noteq> None"
    by (auto simp: register_user_def Let_def load_users_def save_users_def print_def
        generate_qr_code_def split: if_splits prod.splits sum.splits)
  then show ?thesis by (auto simp: register_user_def print_def)
qed

section \<open>The biometric gate\<close>

lemma load_users_tampered: "load_users tampered_world ''alice'' = Some tampered_record"
  by (simp add: load_users_def tampered_world_def empty_world_def)

lemmas hex_eval = fromhex.simps is_space_def hex_value_def hex_digits_def

lemma tampered_salt:
  "fromhex (salt_hex tampered_record) = Inr [0, 1, 2, 3, 4, 5, 6, 7, 8, 9, 10, 11, 12, 13, 14, 15]"
  by (simp add: tampered_record_def alice_record_def hex_eval)

lemma tampered_nonce:
  "fromhex (nonce_hex tampered_record) =
     Inr [48, 49, 50, 51, 52, 53, 54, 55, 56, 57, 58, 59, 60, 61, 62, 63]"
  by (simp add: tampered_record_def alice_record_def hex_eval)

lemma tampered_key:
  "fromhex (key_hex tampered_record) =
     Inr [69, 66, 69, 83, 69, 120, 81, 86, 70, 104, 99, 89, 71, 82, 111, 98, 72, 66, 48, 101, 72,
       121, 65, 104, 73, 105, 77, 107, 74, 83, 89, 110, 75, 67, 107, 113, 75, 121, 119, 116,
       76, 105, 56, 61]"
  by (simp add: tampered_record_def alice_record_def hex_eval)

lemma tampered_token:
  "fromhex (encrypted_hash_hex tampered_record) =
     Inr [102, 65, 65, 65, 65, 65, 65, 65, 65, 65, 65, 55, 81, 69, 70, 67, 81, 48, 82, 70, 82,
       107, 100, 73, 83, 85, 112, 76, 84, 69, 49, 79, 84, 53, 75, 48, 54, 89, 115, 110, 75,
       101, 107, 103, 45, 86, 68, 45, 53, 76, 69, 53, 120, 74, 108, 115, 111, 53, 89, 56, 45,
       80, 77, 70, 108, 110, 109, 85, 109, 80, 121, 87, 109, 115, 76, 110, 88, 74, 75, 107, 68,
       56, 122, 71, 77, 54, 70, 66, 114, 97, 76, 72, 113, 113, 102, 56, 50, 80, 65, 118, 79,
       49, 55, 88, 80, 45, 84, 109, 117, 56, 78, 101, 117, 85, 57, 65, 108, 81, 111, 70, 122,
       108, 107, 66, 67, 110, 110, 81, 74, 89, 52, 113, 106, 112, 90, 48, 116, 117, 121, 108]"
  by (simp add: tampered_record_def alice_record_def hex_eval)

lemma b64_alphabet_bytes:
  "b64_alphabet =
      [0x41, 0x42, 0x43, 0x44, 0x45, 0x46, 0x47, 0x48, 0x49, 0x4A, 0x4B, 0x4C, 0x4D, 0x4E,
       0x4F, 0x50, 0x51, 0x52, 0x53, 0x54, 0x55, 0x56, 0x57, 0x58, 0x59, 0x5A, 0x61, 0x62,
       0x63, 0x64, 0x65, 0x66, 0x67, 0x68, 0x69, 0x6A, 0x6B, 0x6C, 0x6D, 0x6E, 0x6F, 0x70,
       0x71, 0x72, 0x73, 0x74, 0x75, 0x76, 0x77, 0x78, 0x79, 0x7A, 0x30, 0x31, 0x32, 0x33,
       0x34, 0x35, 0x36, 0x37, 0x38, 0x39, 0x2B, 0x2F]"
  by (simp add: b64_alphabet_def byte_of_char_def)

lemmas b64_eval = urlsafe_b64decode_def a2b_base64_def b64_alphabet_bytes

lemma tampered_fernet:
  "Fernet
      [69, 66, 69, 83, 69, 120, 81, 86, 70, 104, 99, 89, 71, 82, 111, 98, 72, 66, 48, 101, 72,
       121, 65, 104, 73, 105, 77, 107, 74, 83, 89, 110, 75, 67, 107, 113, 75, 121, 119, 116,
       76, 105, 56, 61] =
     Inr \<lparr>signing_key = [16, 17, 18, 19, 20, 21, 22, 23, 24, 25, 26, 27, 28, 29, 30, 31],
          encryption_key = [32, 33, 34, 35, 36, 37, 38, 39, 40, 41, 42, 43, 44, 45, 46, 47]\<rparr>"
  by (simp add: Fernet_def b64_eval)

lemma tampered_decrypt:
  "decrypt_data toy_env
      [69, 66, 69, 83, 69, 120, 81, 86, 70, 104, 99, 89, 71, 82, 111, 98, 72, 66, 48, 101, 72,
       121, 65, 104, 73, 105, 77, 107, 74, 83, 89, 110, 75, 67, 107, 113, 75, 121, 119, 116,
       76, 105, 56, 61]
      nonce
      [102, 65, 65, 65, 65, 65, 65, 65, 65, 65, 65, 55, 81, 69, 70, 67, 81, 48, 82, 70, 82,
       107, 100, 73, 83, 85, 112, 76, 84, 69, 49, 79, 84, 53, 75, 48, 54, 89, 115, 110, 75,
       101, 107, 103, 45, 86, 68, 45, 53, 76, 69, 53, 120, 74, 108, 115, 111, 53, 89, 56, 45,
       80, 77, 70, 108, 110, 109, 85, 109, 80, 121, 87, 109, 115, 76, 110, 88, 74, 75, 107, 68,
       56, 122, 71, 77, 54, 70, 66, 114, 97, 76, 72, 113, 113, 102, 56, 50, 80, 65, 118, 79,
       49, 55, 88, 80, 45, 84, 109, 117, 56, 78, 101, 117, 85, 57, 65, 108, 81, 111, 70, 122,
       108, 107, 66, 67, 110, 110, 81, 74, 89, 52, 113, 106, 112, 90, 48, 116, 117, 121, 108] =
     Inl InvalidToken"
  by (simp add: decrypt_data_def tampered_fernet fernet_decrypt_def b64_eval)

lemmas tampered_eval = load_users_tampered tampered_salt tampered_nonce tampered_key
  tampered_token tampered_decrypt

lemma tampered_no_match: "\<not> biometric_match toy_env ''alice'' tampered_world"
  by (simp add: biometric_match_def tampered_eval)

text \<open>
  C2, as the code has it: \<open>authenticate_user\<close> has no handler around \<open>decrypt_data\<close>.
  When the stored record does not decrypt, the exception of Fernet (\<open>InvalidToken\<close>, or
  \<open>ValueError\<close> for a malformed key) leaves \<open>authenticate_user\<close> as it is, nothing is
  printed, and the caller can tell it from a mismatch. The biometric rejection is the
  outcome exactly when the record decrypts to a digest other than the fresh one.
\<close>

theorem decryption_failure_propagates:
  assumes "load_users w username = Some ud"
    and "fromhex (salt_hex ud) = Inr salt"
    and "fromhex (encrypted_hash_hex ud) = Inr encrypted_hash"
    and "fromhex (key_hex ud) = Inr k"
    and "fromhex (nonce_hex ud) = Inr nonce"
  shows "(decrypt_data env k nonce encrypted_hash = Inl e \<longrightarrow>
           authenticate_user env username w = (Inl e, w)) \<and>
         (fst (authenticate_user env username w) = Inr BiometricCheckFailed \<longleftrightarrow>
           (\<exists>d. decrypt_data env k nonce encrypted_hash = Inr d \<and>
                d \<noteq> pbkdf2_hmac_sha256 (tobytes (generate_mock_fingerprint env username))
                      salt 100000))"
  using assms
  by (auto simp: authenticate_user_cases split: sum.splits prod.splits)

theorem decryption_failure_propagates_witness:
  "load_users tampered_world ''alice'' = Some tampered_record \<and>
   authenticate_user toy_env ''alice'' tampered_world = (Inl InvalidToken, tampered_world) \<and>
   fst (authenticate_user toy_env ''alice'' tampered_world) \<noteq> Inr BiometricCheckFailed"
  using decryption_failure_propagates
    [OF load_users_tampered tampered_salt tampered_token tampered_key tampered_nonce,
     of toy_env InvalidToken]
    tampered_decrypt load_users_tampered
  by simp

text \<open>
  C2 as stated fails: for the record of \<open>alice\<close> with one bit of the sealed digest
  flipped, verification does not end in the biometric rejection; \<open>InvalidToken\<close> escapes
  and no rejection line is printed.
\<close>

theorem tampered_record_counterexample:
  "fst (authenticate_user toy_env ''alice'' tampered_world) = Inl InvalidToken \<and>
   stdout (snd (authenticate_user toy_env ''alice'' tampered_world)) = []"
  by (simp add: authenticate_user_cases tampered_eval)
    (simp add: tampered_world_def empty_world_def)

text \<open>
  C7: the one-time code is asked for only after the biometric comparison has succeeded.
  When the lookup, the decoding, the decryption or the comparison fails, no line is read
  from the input and the prompt is not printed; otherwise the prompt is printed once and
  one line is read, and the call ends after that single check. A missing user is reported
  before anything else.
\<close>

theorem otp_only_after_biometric_match:
  assumes "authenticate_user env username w = (r, w')"
  shows "(\<not> biometric_match env username w \<longrightarrow>
            stdin w' = stdin w \<and>
            otp_prompt \<notin> set (drop (length (stdout w)) (stdout w')) \<and>
            length (stdout w') \<le> length (stdout w) + 1 \<and>
            r \<noteq> Inr OtpCheckFailed \<and> r \<noteq> Inr AuthSuccess) \<and>
         (biometric_match env username w \<longrightarrow>
            stdin w' = tl (stdin w) \<and>
            (\<exists>rest. stdout w' = stdout w @ otp_prompt # rest \<and> length rest \<le> 1
                    \<and> otp_prompt \<notin> set rest) \<and>
            r \<noteq> Inr UserNotFound \<and> r \<noteq> Inr BiometricCheckFailed) \<and>
         (r = Inr UserNotFound \<longleftrightarrow> load_users w username = None)"
  using assms
  by (auto simp: authenticate_user_cases biometric_match_def print_def otp_prompt_def
      split: option.splits sum.splits prod.splits if_splits dest!: input_effect)

theorem otp_only_after_biometric_match_witness:
  "\<not> biometric_match toy_env ''alice'' tampered_world \<and>
   stdin (snd (authenticate_user toy_env ''alice'' tampered_world)) = stdin tampered_world \<and>
   fst (authenticate_user toy_env ''alice'' tampered_world) \<noteq> Inr AuthSuccess"
  using otp_only_after_biometric_match
    [of toy_env "''alice''" tampered_world
       "fst (authenticate_user toy_env ''alice'' tampered_world)"
       "snd (authenticate_user toy_env ''alice'' tampered_world)"]
    tampered_no_match
  by simp

section \<open>Base64 round trip\<close>

lemma index_of_nth: "distinct xs \<Longrightarrow> i < length xs \<Longrightarrow> index_of (xs ! i) xs = Some i"
proof (induction xs arbitrary: i)
  case Nil
  then show ?case by simp
next
  case (Cons x xs)
  show ?case
  proof (cases i)
    case 0
    then show ?thesis by simp
  next
    case (Suc j)
    with Cons.prems have "xs ! j \<in> set xs" "x \<notin> set xs" by auto
    then have "xs ! j \<noteq> x" by auto
    with Cons Suc show ?thesis by simp
  qed
qed

lemma b64_alphabet_distinct: "distinct b64_alphabet"
  by (simp add: b64_alphabet_bytes)

lemma b64_alphabet_length: "length b64_alphabet = 64"
  by (simp add: b64_alphabet_def)

lemma b64_alphabet_other: "0x3D \<notin> set b64_alphabet" "0x2D \<notin> set b64_alphabet" "0x5F \<notin> set b64_alphabet"
  by (simp_all add: b64_alphabet_bytes)

lemma b64_sym_mem: "unat v < 64 \<Longrightarrow> b64_sym v \<in> set b64_alphabet"
  by (simp add: b64_sym_def b64_alphabet_length)

lemma b64_sym_lookup: "unat v < 64 \<Longrightarrow> index_of (b64_sym v) b64_alphabet = Some (unat v)"
  by (simp add: b64_sym_def index_of_nth b64_alphabet_distinct b64_alphabet_length)

lemma b64_sym_not_pad: "unat v < 64 \<Longrightarrow> b64_sym v \<noteq> 0x3D"
  using b64_sym_mem b64_alphabet_other(1) by metis

text \<open>The masks of the encoder and of the decoder, as truncations.\<close>

lemma and_3: "(a::byte) AND 0x03 = take_bit 2 a"
  by (simp add: take_bit_eq_mask mask_eq_exp_minus_1)

lemma and_15: "(a::byte) AND 0x0F = take_bit 4 a"
  by (simp add: take_bit_eq_mask mask_eq_exp_minus_1)

lemma and_63: "(a::byte) AND 0x3F = take_bit 6 a"
  by (simp add: take_bit_eq_mask mask_eq_exp_minus_1)

lemmas masks = and_3 and_15 and_63

lemma Suc_Suc_diff_2: "2 \<le> n \<Longrightarrow> Suc (Suc (n - 2)) = n"
  by simp

lemma regroup_1:
  "push_bit 2 (drop_bit 2 a) OR drop_bit 4 (push_bit 4 (take_bit 2 a) OR drop_bit 4 b) = (a::byte)"
proof (rule bit_word_eqI)
  fix n
  assume "n < LENGTH(8)"
  then show "bit (push_bit 2 (drop_bit 2 a) OR drop_bit 4 (push_bit 4 (take_bit 2 a) OR drop_bit 4 b)) n
     = bit a n"
    by (cases "2 \<le> n") (auto simp: bit_simps Suc_Suc_diff_2)
qed

lemma regroup_1_pad:
  "push_bit 2 (drop_bit 2 a) OR drop_bit 4 (push_bit 4 (take_bit 2 a)) = (a::byte)"
proof (rule bit_word_eqI)
  fix n
  assume "n < LENGTH(8)"
  then show "bit (push_bit 2 (drop_bit 2 a) OR drop_bit 4 (push_bit 4 (take_bit 2 a))) n = bit a n"
    by (cases "2 \<le> n") (auto simp: bit_simps Suc_Suc_diff_2)
qed

lemma regroup_2:
  "push_bit 4 (take_bit 4 (push_bit 4 (take_bit 2 a) OR drop_bit 4 b))
     OR drop_bit 2 (push_bit 2 (take_bit 4 b) OR drop_bit 6 c) = (b::byte)"
  by (rule bit_word_eqI) (auto simp: bit_simps)

lemma regroup_2_pad:
  "push_bit 4 (take_bit 4 (push_bit 4 (take_bit 2 a) OR drop_bit 4 b))
     OR drop_bit 2 (push_bit 2 (take_bit 4 b)) = (b::byte)"
  by (rule bit_word_eqI) (auto simp: bit_simps)

lemma regroup_3:
  "push_bit 6 (take_bit 2 (push_bit 2 (take_bit 4 b) OR drop_bit 6 c)) OR take_bit 6 c = (c::byte)"
  by (rule bit_word_eqI) (auto simp: bit_simps)

lemmas regroup = regroup_1 regroup_1_pad regroup_2 regroup_2_pad regroup_3

lemma unat_take_bit_6: "unat (take_bit 6 (v::byte)) < 64"
  by (simp add: unsigned_take_bit_eq take_bit_nat_less_exp [where n=6, simplified])

lemma sextet_1: "unat (drop_bit 2 (a::byte)) < 64"
proof -
  have "drop_bit 2 a = take_bit 6 (drop_bit 2 a)"
    by (rule bit_word_eqI) (auto simp: bit_simps dest: bit_imp_le_length)
  then show ?thesis using unat_take_bit_6 by metis
qed

lemma sextet_2: "unat (push_bit 4 (take_bit 2 a) OR drop_bit 4 (b::byte)) < 64"
proof -
  have "push_bit 4 (take_bit 2 a) OR drop_bit 4 b
      = take_bit 6 (push_bit 4 (take_bit 2 a) OR drop_bit 4 b)"
    by (rule bit_word_eqI) (auto simp: bit_simps dest: bit_imp_le_length)
  then show ?thesis using unat_take_bit_6 by metis
qed

lemma sextet_2_pad: "unat (push_bit 4 (take_bit 2 (a::byte))) < 64"
proof -
  have "push_bit 4 (take_bit 2 a) = take_bit 6 (push_bit 4 (take_bit 2 a))"
    by (rule bit_word_eqI) (auto simp: bit_simps dest: bit_imp_le_length)
  then show ?thesis using unat_take_bit_6 by metis
qed

lemma sextet_3: "unat (push_bit 2 (take_bit 4 b) OR drop_bit 6 (c::byte)) < 64"
proof -
  have "push_bit 2 (take_bit 4 b) OR drop_bit 6 c
      = take_bit 6 (push_bit 2 (take_bit 4 b) OR drop_bit 6 c)"
    by (rule bit_word_eqI) (auto simp: bit_simps dest: bit_imp_le_length)
  then show ?thesis using unat_take_bit_6 by metis
qed

lemma sextet_3_pad: "unat (push_bit 2 (take_bit 4 (b::byte))) < 64"
proof -
  have "push_bit 2 (take_bit 4 b) = take_bit 6 (push_bit 2 (take_bit 4 b))"
    by (rule bit_word_eqI) (auto simp: bit_simps dest: bit_imp_le_length)
  then show ?thesis using unat_take_bit_6 by metis
qed

lemmas sextets = sextet_1 sextet_2 sextet_2_pad sextet_3 sextet_3_pad unat_take_bit_6

text \<open>One step of the decoder on a symbol of the alphabet.\<close>

lemma a2b_loop_sym:
  assumes "unat v < 64"
  shows "a2b_loop (b64_sym v # rest) quad_pos leftchar pads out =
     (if quad_pos = 0 then a2b_loop rest 1 v 0 out
      else if quad_pos = 1 then
        a2b_loop rest 2 (take_bit 4 v) 0 (out @ [push_bit 2 leftchar OR drop_bit 4 v])
      else if quad_pos = 2 then
        a2b_loop rest 3 (take_bit 2 v) 0 (out @ [push_bit 4 leftchar OR drop_bit 2 v])
      else a2b_loop rest 0 0 0 (out @ [push_bit 6 leftchar OR v]))"
  using assms by (simp add: b64_sym_lookup b64_sym_not_pad masks)

lemma a2b_loop_pad:
  "a2b_loop (0x3D # rest) quad_pos leftchar pads out =
     (if 2 \<le> quad_pos \<and> 4 \<le> quad_pos + (pads + 1) then Inr out
      else a2b_loop rest quad_pos leftchar (if 2 \<le> quad_pos then pads + 1 else pads) out)"
  by simp

lemma a2b_loop_b2a: "a2b_loop (b2a_base64 xs) 0 leftchar pads out = Inr (out @ xs)"
proof (induction xs arbitrary: leftchar pads out rule: b2a_base64.induct)
  case (1 a b c rest)
  have "a2b_loop (b2a_base64 (a # b # c # rest)) 0 leftchar pads out =
        a2b_loop (b2a_base64 rest) 0 0 0 (out @ [a, b, c])"
    apply (simp add: masks a2b_loop_sym sextets regroup del: a2b_loop.simps(2))
    apply (rule arg_cong [where f = "a2b_loop (b2a_base64 rest) 0 0 0"])
    apply simp
    apply (intro conjI)
     apply (rule bit_word_eqI, auto simp: bit_simps)+
    done
  with 1 show ?case by simp
next
  case (2 a b)
  have "a2b_loop (b2a_base64 [a, b]) 0 leftchar pads out = Inr (out @ [a, b])"
    apply (simp add: masks a2b_loop_sym a2b_loop_pad sextets regroup del: a2b_loop.simps(2))
    apply (rule bit_word_eqI, auto simp: bit_simps)+
    done
  then show ?case .
next
  case (3 a)
  show ?case
    by (simp add: masks a2b_loop_sym a2b_loop_pad sextets regroup del: a2b_loop.simps(2))
next
  case 4
  then show ?case by simp
qed

lemma b2a_base64_symbols: "c \<in> set (b2a_base64 xs) \<Longrightarrow> c \<in> set b64_alphabet \<or> c = 0x3D"
  by (induction xs rule: b2a_base64.induct) (auto simp: masks b64_sym_mem sextets)

lemma urlsafe_b64_roundtrip: "urlsafe_b64decode (urlsafe_b64encode xs) = Inr xs"
proof -
  have "map (\<lambda>c. if c = 0x2D then 0x2B else if c = 0x5F then 0x2F else c)
          (map (\<lambda>c. if c = 0x2B then 0x2D else if c = 0x2F then 0x5F else c) (b2a_base64 xs))
        = b2a_base64 xs"
  proof -
    have "c \<noteq> 0x2D \<and> c \<noteq> 0x5F" if "c \<in> set (b2a_base64 xs)" for c
      using b2a_base64_symbols [OF that] b64_alphabet_other by auto
    then show ?thesis by (simp add: o_def map_idI)
  qed
  then show ?thesis
    by (simp add: urlsafe_b64decode_def urlsafe_b64encode_def a2b_base64_def a2b_loop_b2a)
qed

section \<open>Sealing and opening: round trip\<close>

lemma os_urandom_length [simp]: "length (fst (os_urandom n g)) = n"
  by (simp add: os_urandom_def)

lemma to_bytes_be_length [simp]: "length (to_bytes_be n v) = n"
proof (induction n v rule: to_bytes_be.induct)
  case (1 n v)
  then show ?case by (subst to_bytes_be.simps) (cases "n = 0"; simp)
qed

lemma concat_chunks: "0 < n \<Longrightarrow> concat (chunks n xs) = xs"
proof (induction n xs rule: chunks.induct)
  case (1 n xs)
  then show ?case by (subst chunks.simps) simp
qed

lemma chunks_block_lengths:
  "0 < n \<Longrightarrow> length xs mod n = 0 \<Longrightarrow> b \<in> set (chunks n xs) \<Longrightarrow> length b = n"
proof (induction n xs rule: chunks.induct)
  case (1 n xs)
  show ?case
  proof (cases "xs = []")
    case True
    with 1 show ?thesis by (simp add: chunks.simps)
  next
    case False
    with "1.prems" have n_le: "n \<le> length xs"
      by (metis length_greater_0_conv mod_less neq0_conv not_le_imp_less)
    then have "(length xs - n) mod n = 0"
      using "1.prems"(2) by (simp add: mod_eq_0_iff_dvd)
    with 1 False n_le show ?thesis
      by (subst (asm) (2) chunks.simps) (auto simp: min_def)
  qed
qed

lemma chunks_append_block:
  "0 < n \<Longrightarrow> length c = n \<Longrightarrow> chunks n (c @ rest) = c # chunks n rest"
  by (subst chunks.simps) auto

lemma map2_xor_cancel:
  "length p = length q \<Longrightarrow> map2 (XOR) (map2 (XOR) p q) q = (p :: bytes)"
  by (induction p q rule: list_induct2) (simp_all add: xor.assoc)

lemma cbc_encrypt_length:
  assumes "\<And>b. length b = 16 \<Longrightarrow> length (E b) = 16"
  shows "length prev = 16 \<Longrightarrow> (\<And>p. p \<in> set ps \<Longrightarrow> length p = 16) \<Longrightarrow>
         length (cbc_encrypt E prev ps) = 16 * length ps"
  by (induction ps arbitrary: prev) (simp_all add: assms Let_def)

lemma cbc_roundtrip:
  assumes "\<And>b. length b = 16 \<Longrightarrow> D (E b) = b \<and> length (E b) = 16"
  shows "length prev = 16 \<Longrightarrow> (\<And>p. p \<in> set ps \<Longrightarrow> length p = 16) \<Longrightarrow>
         cbc_decrypt D prev (chunks 16 (cbc_encrypt E prev ps)) = concat ps"
proof (induction ps arbitrary: prev)
  case Nil
  then show ?case by (simp add: chunks.simps)
next
  case (Cons p ps)
  let ?c = "E (map2 (XOR) p prev)"
  have len_x: "length (map2 (XOR) p prev) = 16" using Cons.prems by simp
  then have c: "length ?c = 16" "D ?c = map2 (XOR) p prev" using assms by auto
  have "cbc_decrypt D prev (chunks 16 (cbc_encrypt E prev (p # ps))) =
        map2 (XOR) (D ?c) prev @ cbc_decrypt D ?c (chunks 16 (cbc_encrypt E ?c ps))"
    using c by (simp add: Let_def chunks_append_block)
  also have "\<dots> = p @ concat ps"
    using Cons c by (simp add: map2_xor_cancel)
  finally show ?case by simp
qed

lemma pkcs7_pad_length: "length (pkcs7_pad d) mod 16 = 0" "pkcs7_pad d \<noteq> []"
proof -
  have "(length d + (16 - length d mod 16)) mod 16 = 0"
    by presburger
  then show "length (pkcs7_pad d) mod 16 = 0" by (simp add: pkcs7_pad_def Let_def)
  have "0 < 16 - length d mod 16" by simp
  then show "pkcs7_pad d \<noteq> []" by (simp add: pkcs7_pad_def Let_def)
qed

lemma pkcs7_unpad_pad: "pkcs7_unpad (pkcs7_pad d) = Inr d"
proof -
  define n where "n = 16 - length d mod 16"
  have n: "0 < n" "n \<le> 16" by (simp_all add: n_def)
  have pad: "pkcs7_pad d = d @ replicate n (of_nat n)" by (simp add: pkcs7_pad_def n_def)
  have last: "last (pkcs7_pad d) = of_nat n" using n by (simp add: pad)
  have un: "unat (of_nat n :: byte) = n" using n by (simp add: unsigned_of_nat take_bit_nat_eq_self)
  have tail: "lastn n (pkcs7_pad d) = replicate n (of_nat n)" by (simp add: pad lastn_def)
  show ?thesis
    unfolding pkcs7_unpad_def using pkcs7_pad_length [of d] n
    by (simp add: last un tail Let_def list_all_length) (simp add: pad)
qed

text \<open>The parts of a token, found again by the slices that \<open>decrypt\<close> takes.\<close>

lemma token_slices:
  assumes "length ts = 8" and "length iv = 16" and "length tag = 32"
  shows "take (length ((v # ts @ iv @ ct) @ tag) - 32) ((v # ts @ iv @ ct) @ tag) = v # ts @ iv @ ct"
    and "lastn 32 ((v # ts @ iv @ ct) @ tag) = tag"
    and "take 16 (drop 9 ((v # ts @ iv @ ct) @ tag)) = iv"
    and "take (length ((v # ts @ iv @ ct) @ tag) - 32 - 25) (drop 25 ((v # ts @ iv @ ct) @ tag)) = ct"
proof -
  define xs where "xs = v # ts @ iv @ ct"
  have len: "length xs = 25 + length ct" using assms by (simp add: xs_def)
  have "take (length (xs @ tag) - 32) (xs @ tag) = xs" using assms by simp
  then show "take (length ((v # ts @ iv @ ct) @ tag) - 32) ((v # ts @ iv @ ct) @ tag)
               = v # ts @ iv @ ct"
    by (simp only: xs_def)
  have "lastn 32 (xs @ tag) = tag" using assms by (simp add: lastn_def)
  then show "lastn 32 ((v # ts @ iv @ ct) @ tag) = tag" by (simp only: xs_def)
  show "take 16 (drop 9 ((v # ts @ iv @ ct) @ tag)) = iv" using assms by simp
  show "take (length ((v # ts @ iv @ ct) @ tag) - 32 - 25) (drop 25 ((v # ts @ iv @ ct) @ tag)) = ct"
    using assms by simp
qed

lemma fernet_roundtrip:
  assumes cipher: "\<And>b. length b = 16 \<Longrightarrow>
             aes_decrypt env (encryption_key f) (aes_encrypt env (encryption_key f) b) = b \<and>
             length (aes_encrypt env (encryption_key f) b) = 16"
    and iv: "length iv = 16" and t: "t < 2 ^ 64"
  shows "\<exists>token. fernet_encrypt_from_parts env f d t iv = Inr token \<and>
           fernet_decrypt env f token = Inr d"
proof -
  let ?E = "aes_encrypt env (encryption_key f)" and ?D = "aes_decrypt env (encryption_key f)"
  let ?ps = "chunks 16 (pkcs7_pad d)"
  let ?ct = "cbc_encrypt ?E iv ?ps"
  let ?basic = "0x80 # to_bytes_be 8 t @ iv @ ?ct"
  let ?tag = "hmac sha256 (signing_key f) ?basic"
  have blocks: "\<And>p. p \<in> set ?ps \<Longrightarrow> length p = 16"
    using chunks_block_lengths [of 16 "pkcs7_pad d"] pkcs7_pad_length(1) [of d] by simp
  have ct_len: "length ?ct mod 16 = 0"
    using cbc_encrypt_length [of ?E iv ?ps] cipher iv blocks by simp
  have dec: "cbc_decrypt ?D iv (chunks 16 ?ct) = pkcs7_pad d"
    using cbc_roundtrip [of ?D ?E iv ?ps] cipher iv blocks by (simp add: concat_chunks)
  have enc: "fernet_encrypt_from_parts env f d t iv = Inr (urlsafe_b64encode (?basic @ ?tag))"
    using t by (simp add: fernet_encrypt_from_parts_def Let_def)
  have "fernet_decrypt env f (urlsafe_b64encode (?basic @ ?tag)) = Inr d"
    unfolding fernet_decrypt_def urlsafe_b64_roundtrip
    using token_slices [of "to_bytes_be 8 t" iv ?tag "0x80" ?ct] iv ct_len
    by (simp add: Let_def dec pkcs7_unpad_pad)
  with enc show ?thesis by simp
qed

lemma Fernet_generated_key:
  "length raw = 32 \<Longrightarrow>
     Fernet (urlsafe_b64encode raw) = Inr \<lparr>signing_key = take 16 raw, encryption_key = drop 16 raw\<rparr>"
  by (simp add: Fernet_def urlsafe_b64_roundtrip)

text \<open>
  C5: what \<open>encrypt_data\<close> seals, \<open>decrypt_data\<close> opens again to the same bytes, with the
  key and the nonce that \<open>encrypt_data\<close> returned. The environment is taken as it is in
  practice: the block cipher's decryption inverts its encryption on 16-byte blocks under
  16-byte keys, and the clock fits the eight bytes of the token's time stamp.
\<close>

theorem open_inverts_seal:
  assumes cipher: "\<And>k b. length k = 16 \<Longrightarrow> length b = 16 \<Longrightarrow>
             aes_decrypt env k (aes_encrypt env k b) = b \<and> length (aes_encrypt env k b) = 16"
    and t: "t < 2 ^ 64"
  shows "(\<exists>k nonce token g'. encrypt_data env d t g = (Inr (k, nonce, token), g') \<and>
            decrypt_data env k nonce token = Inr d) \<and>
         (\<forall>k nonce token g'. encrypt_data env d t g = (Inr (k, nonce, token), g') \<longrightarrow>
            decrypt_data env k nonce token = Inr d)"
proof -
  obtain raw g1 where raw: "os_urandom 32 g = (raw, g1)" by (cases "os_urandom 32 g")
  obtain nonce g2 where nonce: "os_urandom 16 g1 = (nonce, g2)" by (cases "os_urandom 16 g1")
  obtain iv g3 where iv: "os_urandom 16 g2 = (iv, g3)" by (cases "os_urandom 16 g2")
  have raw_len: "length raw = 32" using os_urandom_length [of 32 g] raw by simp
  have iv_len: "length iv = 16" using os_urandom_length [of 16 g2] iv by simp
  let ?f = "\<lparr>signing_key = take 16 raw, encryption_key = drop 16 raw\<rparr>"
  have key: "Fernet (urlsafe_b64encode raw) = Inr ?f"
    using raw_len by (rule Fernet_generated_key)
  have "length (encryption_key ?f) = 16" using raw_len by simp
  then have "\<And>b. length b = 16 \<Longrightarrow>
      aes_decrypt env (encryption_key ?f) (aes_encrypt env (encryption_key ?f) b) = b \<and>
      length (aes_encrypt env (encryption_key ?f) b) = 16"
    using cipher by blast
  from fernet_roundtrip [of env ?f iv t d, OF this iv_len t]
  obtain token where token: "fernet_encrypt_from_parts env ?f d t iv = Inr token"
    and opened: "fernet_decrypt env ?f token = Inr d"
    by blast
  have sealed: "encrypt_data env d t g = (Inr (urlsafe_b64encode raw, nonce, token), g3)"
    by (simp add: encrypt_data_def fernet_generate_key_def raw key nonce fernet_encrypt_def iv token)
  have "decrypt_data env (urlsafe_b64encode raw) nonce token = Inr d"
    by (simp add: decrypt_data_def key opened)
  with sealed show ?thesis by auto
qed

lemma toy_cipher:
  "length k = 16 \<Longrightarrow> length b = 16 \<Longrightarrow>
     aes_decrypt toy_env k (aes_encrypt toy_env k b) = b \<and> length (aes_encrypt toy_env k b) = 16"
  by (simp add: toy_env_def map2_xor_cancel)

theorem open_inverts_seal_witness:
  "\<exists>k nonce token g'. encrypt_data toy_env [1, 2, 3] 59 toy_rng = (Inr (k, nonce, token), g') \<and>
     decrypt_data toy_env k nonce token = Inr [1, 2, 3]"
proof -
  have "(59::nat) < 2 ^ 64" by simp
  from open_inverts_seal [of toy_env 59 "[1, 2, 3]" toy_rng, OF toy_cipher this]
  show ?thesis by blast
qed

end
